theory Spec2Isabelle
  imports Main "HOL-Library.AList"
begin

section \<open>Finite automata of \<open>src/automata.py\<close>: data model\<close>

text \<open>
  The module works on plain Python values. An automaton is the five-tuple
  \<open>(states, alphabet, delta, initial_state, final_states)\<close>. State names and symbols are
  strings; a transition is the tuple of the whitespace-separated tokens of one line of the
  input file, read by position (\<open>edge[0]\<close>, \<open>edge[1]\<close>, \<open>edge[2]\<close>). A tuple that is too
  short makes the index expression raise \<open>IndexError\<close>, so a transition is modelled as the
  list of its tokens and every index is guarded.

  The first component of the tuple is a tuple of names when it comes from
  \<open>load_automata\<close> and a single string when it comes from \<open>convert_to_dfa\<close>;
  the functions that take an automaton never look inside it, so its type is a parameter.
\<close>

datatype error = IndexError | ValueError string

type_synonym edge = "string list"

type_synonym 's automaton = "'s \<times> string list \<times> edge list \<times> string \<times> string list"

section \<open>\<open>load_automata\<close>\<close>

text \<open>
  The file is given as the list of its lines, each as \<open>readline\<close> returns it (with its
  line terminator). Opening and decoding the file are outside the model. Characters are
  those with code points below 256; \<open>isspace\<close> is Python's \<open>str.isspace\<close> on that range,
  which is what \<open>strip()\<close> and \<open>split()\<close> without arguments use.
\<close>

definition isspace :: "char \<Rightarrow> bool" where
  "isspace c = (c \<in> set [CHR 0x09, CHR 0x0A, CHR 0x0B, CHR 0x0C, CHR 0x0D,
                          CHR 0x1C, CHR 0x1D, CHR 0x1E, CHR 0x1F, CHR 0x20,
                          CHR 0x85, CHR 0xA0])"

definition strip_str :: "string \<Rightarrow> string" where
  "strip_str s = rev (dropWhile isspace (rev (dropWhile isspace s)))"

text \<open>\<open>split_from token s\<close>: the tokens of \<open>s\<close>, where \<open>token\<close> is the part of the
  current token already read.\<close>

fun split_from :: "string \<Rightarrow> string \<Rightarrow> string list" where
  "split_from token [] = (if token = [] then [] else [token])"
| "split_from token (c # s) =
     (if isspace c then (if token = [] then split_from [] s else token # split_from [] s)
      else split_from (token @ [c]) s)"

definition split_str :: "string \<Rightarrow> string list" where
  "split_str s = split_from [] s"

text \<open>\<open>readline\<close> returns the next line and the rest of the file, and the empty string at
  the end of the file.\<close>

fun readline :: "string list \<Rightarrow> string \<times> string list" where
  "readline [] = ([], [])"
| "readline (line # rest) = (line, rest)"

text \<open>Lines 39 to 46: the five parsed components, in the order they are read.\<close>

definition read_file ::
  "string list \<Rightarrow> string list \<times> string list \<times> string list \<times> string \<times> edge list" where
  "read_file arquivo =
     (let (l1, f1) = readline arquivo;
          alphabet = split_str (strip_str l1);
          (l2, f2) = readline f1;
          states = split_str (strip_str l2);
          (l3, f3) = readline f2;
          final_states = split_str (strip_str l3);
          (l4, f4) = readline f3;
          initial_state = strip_str l4;
          delta = map (\<lambda>line. split_str (strip_str line)) f4
      in (alphabet, states, final_states, initial_state, delta))"

text \<open>Lines 51 to 53.\<close>

fun check_final_states :: "string list \<Rightarrow> string list \<Rightarrow> error + unit" where
  "check_final_states states [] = Inr ()"
| "check_final_states states (state # rest) =
     (if state \<notin> set states then Inl (ValueError ''invalid final state'')
      else check_final_states states rest)"

text \<open>Lines 55 to 61. The condition is evaluated left to right and stops at the first
  conjunct that is false, so \<open>edge[1]\<close> is read only when \<open>edge[0]\<close> is a state.\<close>

fun check_edges :: "string list \<Rightarrow> string list \<Rightarrow> edge list \<Rightarrow> error + unit" where
  "check_edges states alphabet [] = Inr ()"
| "check_edges states alphabet (edge # rest) =
     (if length edge < 1 then Inl IndexError
      else if edge ! 0 \<notin> set states then Inl (ValueError ''invalid edge'')
      else if length edge < 2 then Inl IndexError
      else if \<not> (edge ! 1 \<in> set alphabet \<or> edge ! 1 = ''&'') then Inl (ValueError ''invalid edge'')
      else if length edge < 3 then Inl IndexError
      else if edge ! 2 \<notin> set states then Inl (ValueError ''invalid edge'')
      else check_edges states alphabet rest)"

definition load_automata :: "string list \<Rightarrow> error + (string list) automaton" where
  "load_automata arquivo =
     (case read_file arquivo of (alphabet, states, final_states, initial_state, delta) \<Rightarrow>
        if initial_state \<notin> set states then Inl (ValueError ''invalid initial state'')
        else (case check_final_states states final_states of
                Inl e \<Rightarrow> Inl e
              | Inr _ \<Rightarrow>
                 (case check_edges states alphabet delta of
                    Inl e \<Rightarrow> Inl e
                  | Inr _ \<Rightarrow> Inr (states, alphabet, delta, initial_state, final_states))))"

section \<open>\<open>process\<close>\<close>

text \<open>Lines 87 to 90: the first transition that matches the current state and the symbol
  gives the next state; when none matches, the loop ends and the state is the one it was.\<close>

fun follow :: "edge list \<Rightarrow> string \<Rightarrow> string \<Rightarrow> error + string" where
  "follow [] current_state symbol = Inr current_state"
| "follow (edge # rest) current_state symbol =
     (if length edge < 1 then Inl IndexError
      else if edge ! 0 \<noteq> current_state then follow rest current_state symbol
      else if length edge < 2 then Inl IndexError
      else if edge ! 1 \<noteq> symbol then follow rest current_state symbol
      else if length edge < 3 then Inl IndexError
      else Inr (edge ! 2))"

text \<open>Lines 82 to 90: the loop over the symbols of a word, from a current state. The
  result is \<open>(is_valid_word, current_state)\<close>. A symbol of a Python string is the string
  of that one character.\<close>

fun consume :: "string list \<Rightarrow> edge list \<Rightarrow> string \<Rightarrow> string \<Rightarrow> error + (bool \<times> string)" where
  "consume alphabet delta current_state [] = Inr (True, current_state)"
| "consume alphabet delta current_state (c # rest) =
     (if [c] \<notin> set alphabet then Inr (False, current_state)
      else case follow delta current_state [c] of
             Inl e \<Rightarrow> Inl e
           | Inr next_state \<Rightarrow> consume alphabet delta next_state rest)"

text \<open>Lines 80 to 95: the value stored in \<open>result[word]\<close>.\<close>

definition classify ::
  "string list \<Rightarrow> edge list \<Rightarrow> string \<Rightarrow> string list \<Rightarrow> string \<Rightarrow> error + string" where
  "classify alphabet delta initial_state final_states word =
     (case consume alphabet delta initial_state word of
        Inl e \<Rightarrow> Inl e
      | Inr (is_valid_word, current_state) \<Rightarrow>
          Inr (if \<not> is_valid_word then ''INVALIDA''
               else if current_state \<in> set final_states then ''ACEITA''
               else ''REJEITA''))"

text \<open>The dictionary \<open>result\<close> is an association list: assigning to a key that is present
  replaces its value in place, a new key goes to the end.\<close>

fun process_words ::
  "string list \<Rightarrow> edge list \<Rightarrow> string \<Rightarrow> string list \<Rightarrow> string list \<Rightarrow>
   (string \<times> string) list \<Rightarrow> error + (string \<times> string) list" where
  "process_words alphabet delta initial_state final_states [] result = Inr result"
| "process_words alphabet delta initial_state final_states (word # rest) result =
     (case classify alphabet delta initial_state final_states word of
        Inl e \<Rightarrow> Inl e
      | Inr verdict \<Rightarrow>
          process_words alphabet delta initial_state final_states rest
            (AList.update word verdict result))"

text \<open>Lines 73 to 78: \<open>delta\<close> is first bound to \<open>automata[0]\<close> and then bound again to
  \<open>automata[2]\<close>.\<close>

definition process :: "'s automaton \<Rightarrow> string list \<Rightarrow> error + (string \<times> string) list" where
  "process automata words =
     (case automata of (a0, a1, a2, a3, a4) \<Rightarrow>
        let delta = a0;
            alphabet = a1;
            delta = a2;
            initial_state = a3;
            final_states = a4
        in process_words alphabet delta initial_state final_states words [])"

section \<open>\<open>handle_closure\<close>\<close>

text \<open>
  A Python set is modelled as the list of its members, without repetition, in the order
  the set iterates them; membership and equality of sets go through \<open>set\<close>. The order in
  which CPython iterates a set of strings depends on the hashes of the strings and is not
  fixed by the source; the model takes the order of insertion. Whatever is proved below
  about the contents of a set does not depend on that choice.

  Lines 106 to 109: the loop over the transitions, for the state popped from the stack.
\<close>

fun scan_edges ::
  "string \<Rightarrow> edge list \<Rightarrow> string list \<times> string list \<Rightarrow> error + (string list \<times> string list)" where
  "scan_edges current [] (closure, stack) = Inr (closure, stack)"
| "scan_edges current (edge # rest) (closure, stack) =
     (if length edge < 1 then Inl IndexError
      else if edge ! 0 \<noteq> current then scan_edges current rest (closure, stack)
      else if length edge < 2 then Inl IndexError
      else if edge ! 1 \<noteq> ''&'' then scan_edges current rest (closure, stack)
      else if length edge < 3 then Inl IndexError
      else if edge ! 2 \<in> set closure then scan_edges current rest (closure, stack)
      else scan_edges current rest (closure @ [edge ! 2], stack @ [edge ! 2]))"

text \<open>Lines 104 to 109: \<open>stack.pop()\<close> takes the last element. The result is \<open>None\<close> when
  the loop does not end.\<close>

partial_function (option) closure_loop ::
  "edge list \<Rightarrow> string list \<Rightarrow> string list \<Rightarrow> (error + string list) option" where
  "closure_loop delta closure stack =
     (if stack = [] then Some (Inr closure)
      else case scan_edges (last stack) delta (closure, butlast stack) of
             Inl e \<Rightarrow> Some (Inl e)
           | Inr (closure', stack') \<Rightarrow> closure_loop delta closure' stack')"

declare closure_loop.simps [code]

definition handle_closure :: "string \<Rightarrow> edge list \<Rightarrow> (error + string list) option" where
  "handle_closure state delta = closure_loop delta [state] [state]"

section \<open>\<open>convert_to_dfa\<close>\<close>

text \<open>\<open>a.union(b)\<close> is a new set with the members of \<open>a\<close> and then those of \<open>b\<close> that
  \<open>a\<close> lacks.\<close>

definition union_set :: "string list \<Rightarrow> string list \<Rightarrow> string list" where
  "union_set a b = a @ filter (\<lambda>x. x \<notin> set a) b"

text \<open>\<open>x in watched\<close> on a list of sets compares sets by their members.\<close>

definition in_watched :: "string list \<Rightarrow> string list list \<Rightarrow> bool" where
  "in_watched new_state watched = list_ex (\<lambda>w. set w = set new_state) watched"

text \<open>Lines 135 to 139: the loop over the transitions, for one state of the current
  composite state and one symbol.\<close>

fun reach_edges ::
  "edge list \<Rightarrow> string \<Rightarrow> string \<Rightarrow> edge list \<Rightarrow> string list \<Rightarrow> (error + string list) option" where
  "reach_edges delta state symbol [] new_state = Some (Inr new_state)"
| "reach_edges delta state symbol (edge # rest) new_state =
     (if length edge < 1 then Some (Inl IndexError)
      else if edge ! 0 \<noteq> state then reach_edges delta state symbol rest new_state
      else if length edge < 2 then Some (Inl IndexError)
      else if edge ! 1 \<noteq> symbol then reach_edges delta state symbol rest new_state
      else if length edge < 3 then Some (Inl IndexError)
      else (case handle_closure (edge ! 2) delta of
              None \<Rightarrow> None
            | Some (Inl e) \<Rightarrow> Some (Inl e)
            | Some (Inr closure) \<Rightarrow>
                reach_edges delta state symbol rest (union_set new_state closure)))"

text \<open>Lines 134 to 139: the loop over the states of the current composite state.\<close>

fun reach_states ::
  "edge list \<Rightarrow> string \<Rightarrow> string list \<Rightarrow> string list \<Rightarrow> (error + string list) option" where
  "reach_states delta symbol [] new_state = Some (Inr new_state)"
| "reach_states delta symbol (state # rest) new_state =
     (case reach_edges delta state symbol delta new_state of
        None \<Rightarrow> None
      | Some (Inl e) \<Rightarrow> Some (Inl e)
      | Some (Inr new_state') \<Rightarrow> reach_states delta symbol rest new_state')"

text \<open>Lines 132 to 144: the loop over the alphabet, on \<open>(new_delta, watched, queue)\<close>.\<close>

type_synonym work = "(string list \<times> string \<times> string list) list \<times> string list list \<times> string list list"

fun for_symbols ::
  "edge list \<Rightarrow> string list \<Rightarrow> string list \<Rightarrow> work \<Rightarrow> (error + work) option" where
  "for_symbols delta current [] (new_delta, watched, queue) =
     Some (Inr (new_delta, watched, queue))"
| "for_symbols delta current (symbol # rest) (new_delta, watched, queue) =
     (case reach_states delta symbol current [] of
        None \<Rightarrow> None
      | Some (Inl e) \<Rightarrow> Some (Inl e)
      | Some (Inr new_state) \<Rightarrow>
          if new_state \<noteq> [] then
            (if \<not> in_watched new_state watched then
               for_symbols delta current rest
                 (new_delta @ [(current, symbol, new_state)],
                  watched @ [new_state], queue @ [new_state])
             else
               for_symbols delta current rest
                 (new_delta @ [(current, symbol, new_state)], watched, queue))
          else for_symbols delta current rest (new_delta, watched, queue))"

text \<open>Lines 128 to 144: the loop over the queue; \<open>queue.pop()\<close> takes the last element.
  The result is \<open>(new_states, new_delta)\<close>, and \<open>None\<close> when the loop does not end.\<close>

partial_function (option) subset_loop ::
  "string list \<Rightarrow> edge list \<Rightarrow> string list list \<Rightarrow>
   (string list \<times> string \<times> string list) list \<Rightarrow> string list list \<Rightarrow> string list list \<Rightarrow>
   (error + string list list \<times> (string list \<times> string \<times> string list) list) option" where
  "subset_loop alphabet delta new_states new_delta watched queue =
     (if queue = [] then Some (Inr (new_states, new_delta))
      else (case for_symbols delta (last queue) alphabet (new_delta, watched, butlast queue) of
              None \<Rightarrow> None
            | Some (Inl e) \<Rightarrow> Some (Inl e)
            | Some (Inr (new_delta', watched', queue')) \<Rightarrow>
                subset_loop alphabet delta (new_states @ [last queue]) new_delta' watched' queue'))"

declare subset_loop.simps [code]

text \<open>\<open>''.join(s)\<close>: the members one after the other, in the order \<open>s\<close> iterates them,
  with nothing between them.\<close>

definition join :: "string list \<Rightarrow> string" where
  "join members = concat members"

text \<open>Lines 160 to 163: \<open>temp_new_state\<close> starts as the empty list and each turn of the
  loop assigns a string to it, so the first component of the result is either the empty
  list or one string.\<close>

datatype states_value = StateList "string list" | StateStr string

fun format_states :: "string list list \<Rightarrow> states_value \<Rightarrow> states_value" where
  "format_states [] temp_new_state = temp_new_state"
| "format_states (new_state # rest) temp_new_state = format_states rest (StateStr (join new_state))"

text \<open>Python's \<open>x in v\<close>: an element of a list, a substring of a string.\<close>

fun substring :: "string \<Rightarrow> string \<Rightarrow> bool" where
  "substring x [] = (x = [])"
| "substring x (c # s) = (take (length x) (c # s) = x \<or> substring x s)"

fun py_in :: "string \<Rightarrow> states_value \<Rightarrow> bool" where
  "py_in x (StateList l) = (x \<in> set l)"
| "py_in x (StateStr s) = substring x s"

text \<open>Lines 147 to 151 and 154 to 157. When no composite state holds the initial state,
  \<open>new_initial_state\<close> stays the string it was, and joining a string gives it back.\<close>

definition select_final_states :: "string list \<Rightarrow> string list list \<Rightarrow> string list list" where
  "select_final_states final_states new_states =
     filter (\<lambda>new_state. list_ex (\<lambda>state. state \<in> set final_states) new_state) new_states"

definition select_initial_state :: "string \<Rightarrow> string list list \<Rightarrow> string" where
  "select_initial_state initial_state new_states =
     (case find (\<lambda>new_state. initial_state \<in> set new_state) new_states of
        None \<Rightarrow> initial_state
      | Some new_state \<Rightarrow> join new_state)"

definition convert_to_dfa :: "'s automaton \<Rightarrow> (error + states_value automaton) option" where
  "convert_to_dfa automata =
     (case automata of (a0, alphabet, delta, initial_state, final_states) \<Rightarrow>
        (case handle_closure initial_state delta of
           None \<Rightarrow> None
         | Some (Inl e) \<Rightarrow> Some (Inl e)
         | Some (Inr initial_closure) \<Rightarrow>
            (case subset_loop alphabet delta [] [] [] [initial_closure] of
               None \<Rightarrow> None
             | Some (Inl e) \<Rightarrow> Some (Inl e)
             | Some (Inr (new_states, new_delta)) \<Rightarrow>
                 Some (Inr
                   (format_states new_states (StateList []),
                    alphabet,
                    map (\<lambda>(org, symbol, dest). [join org, symbol, join dest]) new_delta,
                    select_initial_state initial_state new_states,
                    map join (select_final_states final_states new_states))))))"

section \<open>Reference notions\<close>

text \<open>
  The language of an automaton with epsilon transitions, as the specification means it:
  a word is accepted when some path from the initial state to a final state reads it,
  where a transition labelled \<open>&\<close> reads nothing.
\<close>

inductive nfa_path :: "edge list \<Rightarrow> string \<Rightarrow> string \<Rightarrow> string \<Rightarrow> bool" for delta where
  path_end: "nfa_path delta q [] q"
| path_eps: "edge \<in> set delta \<Longrightarrow> 3 \<le> length edge \<Longrightarrow> edge ! 0 = q \<Longrightarrow>
             edge ! 1 = ''&'' \<Longrightarrow> nfa_path delta (edge ! 2) w q' \<Longrightarrow> nfa_path delta q w q'"
| path_sym: "edge \<in> set delta \<Longrightarrow> 3 \<le> length edge \<Longrightarrow> edge ! 0 = q \<Longrightarrow>
             edge ! 1 = [c] \<Longrightarrow> nfa_path delta (edge ! 2) w q' \<Longrightarrow>
             nfa_path delta q (c # w) q'"

definition nfa_accepts :: "'s automaton \<Rightarrow> string \<Rightarrow> bool" where
  "nfa_accepts automata w =
     (case automata of (a0, alphabet, delta, initial_state, final_states) \<Rightarrow>
        list_ex (\<lambda>q. nfa_path delta initial_state w q) final_states)"

text \<open>The epsilon steps of a transition list, and the states they reach from a state
  in zero or more such steps.\<close>

definition eps_step :: "edge list \<Rightarrow> (string \<times> string) set" where
  "eps_step delta =
     {(edge ! 0, edge ! 2) | edge. edge \<in> set delta \<and> 3 \<le> length edge \<and> edge ! 1 = ''&''}"

definition eps_reachable :: "edge list \<Rightarrow> string \<Rightarrow> string set" where
  "eps_reachable delta state = {t. (state, t) \<in> (eps_step delta)\<^sup>*}"

text \<open>No two transitions with the same source and symbol.\<close>

definition deterministic :: "edge list \<Rightarrow> bool" where
  "deterministic delta = distinct (map (\<lambda>edge. (edge ! 0, edge ! 1)) delta)"

text \<open>The invariants of the data model on the five components: the initial state is a
  state, the final states are states, and every transition goes from a state to a state
  on a symbol of the alphabet or on \<open>&\<close>.\<close>

definition satisfies_invariants ::
  "string list \<Rightarrow> string list \<Rightarrow> edge list \<Rightarrow> string \<Rightarrow> string list \<Rightarrow> bool" where
  "satisfies_invariants states alphabet delta initial_state final_states =
     (initial_state \<in> set states \<and>
      list_all (\<lambda>state. state \<in> set states) final_states \<and>
      list_all (\<lambda>edge. edge ! 0 \<in> set states \<and>
                       (edge ! 1 \<in> set alphabet \<or> edge ! 1 = ''&'') \<and>
                       edge ! 2 \<in> set states) delta)"

text \<open>A result of \<open>handle_closure\<close> in which no state was added twice.\<close>

definition added_once :: "error + string list \<Rightarrow> bool" where
  "added_once r = (case r of Inl e \<Rightarrow> True | Inr closure \<Rightarrow> distinct closure)"

section \<open>\<open>handle_closure\<close>: termination and result\<close>

text \<open>The loop ends because \<open>card (D - set closure) + length stack\<close> goes down at every
  turn, where \<open>D\<close> holds the third tokens of the transitions: a push adds to the closure
  a state of \<open>D\<close> that was not in it, and the pop shortens the stack.\<close>

lemma card_Diff_insert_less:
  assumes "finite D" "x \<in> D" "x \<notin> A"
  shows "card (D - insert x A) < card (D - A)"
proof -
  have eq: "D - insert x A = (D - A) - {x}" by auto
  have "card ((D - A) - {x}) < card (D - A)"
    using assms by (intro card_Diff1_less) auto
  then show ?thesis unfolding eq .
qed

lemma scan_edges_measure:
  assumes "finite D"
  shows "(\<lambda>e. e ! 2) ` set es \<subseteq> D \<Longrightarrow> scan_edges cur es (cl, st) = Inr (cl', st') \<Longrightarrow>
         card (D - set cl') + length st' \<le> card (D - set cl) + length st"
proof (induction es arbitrary: cl st)
  case Nil
  then show ?case by simp
next
  case (Cons e es)
  have sub: "(\<lambda>e. e ! 2) ` set es \<subseteq> D" and eD: "e ! 2 \<in> D"
    using Cons.prems(1) by auto
  show ?case
  proof (cases "1 \<le> length e \<and> e ! 0 = cur \<and> 2 \<le> length e \<and> e ! 1 = ''&'' \<and>
                3 \<le> length e \<and> e ! 2 \<notin> set cl")
    case True
    then have "scan_edges cur es (cl @ [e ! 2], st @ [e ! 2]) = Inr (cl', st')"
      using Cons.prems(2) by (simp split: if_splits)
    from Cons.IH [OF sub this]
    have "card (D - set cl') + length st'
          \<le> card (D - set (cl @ [e ! 2])) + length (st @ [e ! 2])" .
    moreover have "card (D - insert (e ! 2) (set cl)) < card (D - set cl)"
      using card_Diff_insert_less [OF assms eD] True by simp
    ultimately show ?thesis by simp
  next
    case False
    then have "scan_edges cur es (cl, st) = Inr (cl', st')"
      using Cons.prems(2) by (auto split: if_splits)
    from Cons.IH [OF sub this] show ?thesis .
  qed
qed

lemma scan_edges_distinct:
  "scan_edges cur es (cl, st) = Inr (cl', st') \<Longrightarrow> distinct cl \<Longrightarrow> distinct cl'"
proof (induction es arbitrary: cl st)
  case Nil
  then show ?case by simp
next
  case (Cons e es)
  show ?case
  proof (cases "1 \<le> length e \<and> e ! 0 = cur \<and> 2 \<le> length e \<and> e ! 1 = ''&'' \<and>
                3 \<le> length e \<and> e ! 2 \<notin> set cl")
    case True
    then have "scan_edges cur es (cl @ [e ! 2], st @ [e ! 2]) = Inr (cl', st')"
      using Cons.prems(1) by (simp split: if_splits)
    moreover have "distinct (cl @ [e ! 2])" using True Cons.prems(2) by simp
    ultimately show ?thesis by (rule Cons.IH)
  next
    case False
    then have "scan_edges cur es (cl, st) = Inr (cl', st')"
      using Cons.prems(1) by (auto split: if_splits)
    then show ?thesis using Cons.prems(2) by (rule Cons.IH)
  qed
qed

lemma closure_loop_step:
  assumes "st \<noteq> []" and "scan_edges (last st) delta (cl, butlast st) = Inr (cl', st')"
  shows "closure_loop delta cl st = closure_loop delta cl' st'"
    and "card ((\<lambda>e. e ! 2) ` set delta - set cl') + length st'
         < card ((\<lambda>e. e ! 2) ` set delta - set cl) + length st"
proof -
  show "closure_loop delta cl st = closure_loop delta cl' st'"
    using assms by (subst closure_loop.simps) simp
  have "card ((\<lambda>e. e ! 2) ` set delta - set cl') + length st'
        \<le> card ((\<lambda>e. e ! 2) ` set delta - set cl) + length (butlast st)"
    by (rule scan_edges_measure [OF _ _ assms(2)]) auto
  moreover have "length (butlast st) < length st" using assms(1) by simp
  ultimately show "card ((\<lambda>e. e ! 2) ` set delta - set cl') + length st'
        < card ((\<lambda>e. e ! 2) ` set delta - set cl) + length st" by linarith
qed

lemma closure_loop_returns:
  "distinct cl \<Longrightarrow> \<exists>r. closure_loop delta cl st = Some r \<and> added_once r"
proof (induction "card ((\<lambda>e. e ! 2) ` set delta - set cl) + length st"
       arbitrary: cl st rule: less_induct)
  case less
  show ?case
  proof (cases "st = []")
    case True
    then show ?thesis using less.prems by (simp add: closure_loop.simps added_once_def)
  next
    case False
    show ?thesis
    proof (cases "scan_edges (last st) delta (cl, butlast st)")
      case (Inl e)
      then show ?thesis using False by (simp add: closure_loop.simps added_once_def)
    next
      case (Inr p)
      obtain cl' st' where "p = (cl', st')" by (cases p)
      with Inr have scan: "scan_edges (last st) delta (cl, butlast st) = Inr (cl', st')"
        by simp
      have "distinct cl'" using scan less.prems by (rule scan_edges_distinct)
      with closure_loop_step(2) [OF False scan]
      have "\<exists>r. closure_loop delta cl' st' = Some r \<and> added_once r" by (rule less.hyps)
      then show ?thesis using closure_loop_step(1) [OF False scan] by simp
    qed
  qed
qed

text \<open>
  C7: \<open>handle_closure\<close> terminates for every state and every transition list, cyclic
  epsilon transitions included: it always comes back with a result (the closure, or the
  \<open>IndexError\<close> of a transition that is too short), and in a closure it returns every
  state was added once.
\<close>

theorem handle_closure_terminates:
  "\<exists>r. handle_closure state delta = Some r \<and> added_once r"
  unfolding handle_closure_def by (rule closure_loop_returns) simp

text \<open>On transitions of three tokens or more, one scan adds exactly the epsilon
  successors of the current state, and pushes the ones that are new.\<close>

lemma scan_edges_wf:
  "\<forall>e\<in>set es. 3 \<le> length e \<Longrightarrow>
   \<exists>cl' st'. scan_edges cur es (cl, st) = Inr (cl', st') \<and>
     set cl' = set cl \<union> {e ! 2 | e. e \<in> set es \<and> e ! 0 = cur \<and> e ! 1 = ''&''} \<and>
     set st' = set st \<union> (set cl' - set cl)"
proof (induction es arbitrary: cl st)
  case Nil
  then show ?case by simp
next
  case (Cons e es)
  have len: "3 \<le> length e" and rest: "\<forall>e\<in>set es. 3 \<le> length e"
    using Cons.prems by auto
  show ?case
  proof (cases "e ! 0 = cur \<and> e ! 1 = ''&''")
    case False
    from Cons.IH [OF rest, of cl st] obtain cl' st' where
      "scan_edges cur es (cl, st) = Inr (cl', st')"
      "set cl' = set cl \<union> {e ! 2 | e. e \<in> set es \<and> e ! 0 = cur \<and> e ! 1 = ''&''}"
      "set st' = set st \<union> (set cl' - set cl)" by blast
    then show ?thesis using False len by auto
  next
    case match: True
    show ?thesis
    proof (cases "e ! 2 \<in> set cl")
      case True
      from Cons.IH [OF rest, of cl st] obtain cl' st' where
        "scan_edges cur es (cl, st) = Inr (cl', st')"
        "set cl' = set cl \<union> {e ! 2 | e. e \<in> set es \<and> e ! 0 = cur \<and> e ! 1 = ''&''}"
        "set st' = set st \<union> (set cl' - set cl)" by blast
      then show ?thesis using match True len by auto
    next
      case False
      from Cons.IH [OF rest, of "cl @ [e ! 2]" "st @ [e ! 2]"] obtain cl' st' where
        "scan_edges cur es (cl @ [e ! 2], st @ [e ! 2]) = Inr (cl', st')"
        "set cl' = set (cl @ [e ! 2]) \<union>
                   {e ! 2 | e. e \<in> set es \<and> e ! 0 = cur \<and> e ! 1 = ''&''}"
        "set st' = set (st @ [e ! 2]) \<union> (set cl' - set (cl @ [e ! 2]))" by blast
      then show ?thesis using match False len by auto
    qed
  qed
qed

lemma eps_step_iff:
  "\<forall>e\<in>set delta. 3 \<le> length e \<Longrightarrow>
   (x, y) \<in> eps_step delta \<longleftrightarrow>
   (\<exists>e\<in>set delta. e ! 0 = x \<and> e ! 1 = ''&'' \<and> e ! 2 = y)"
  unfolding eps_step_def by force

lemma eps_closed_reachable:
  assumes "state \<in> A"
    and closed: "\<And>x y. x \<in> A \<Longrightarrow> (x, y) \<in> eps_step delta \<Longrightarrow> y \<in> A"
  shows "eps_reachable delta state \<subseteq> A"
proof
  fix t assume "t \<in> eps_reachable delta state"
  then have "(state, t) \<in> (eps_step delta)\<^sup>*" by (simp add: eps_reachable_def)
  then show "t \<in> A"
    by (induction rule: rtrancl_induct) (use assms in auto)
qed

text \<open>The invariant of the loop: the start state is in the closure, the stack is part of
  the closure, the closure holds only reachable states, and the epsilon successors of
  every state of the closure that is no longer on the stack are in the closure.\<close>

lemma closure_loop_exact:
  assumes wf: "\<forall>e\<in>set delta. 3 \<le> length e"
  shows "state \<in> set cl \<Longrightarrow> set st \<subseteq> set cl \<Longrightarrow> set cl \<subseteq> eps_reachable delta state \<Longrightarrow>
         (\<forall>x y. x \<in> set cl \<and> x \<notin> set st \<and> (x, y) \<in> eps_step delta \<longrightarrow> y \<in> set cl) \<Longrightarrow>
         \<exists>r. closure_loop delta cl st = Some (Inr r) \<and> set r = eps_reachable delta state"
proof (induction "card ((\<lambda>e. e ! 2) ` set delta - set cl) + length st"
       arbitrary: cl st rule: less_induct)
  case less
  show ?case
  proof (cases "st = []")
    case True
    have "eps_reachable delta state \<subseteq> set cl"
      using less.prems(1) less.prems(4) True by (intro eps_closed_reachable) auto
    then have "set cl = eps_reachable delta state" using less.prems(3) by auto
    then show ?thesis using True by (simp add: closure_loop.simps)
  next
    case False
    let ?cur = "last st"
    from scan_edges_wf [OF wf, of ?cur cl "butlast st"] obtain cl' st' where
      scan: "scan_edges ?cur delta (cl, butlast st) = Inr (cl', st')" and
      cl': "set cl' = set cl \<union> {e ! 2 | e. e \<in> set delta \<and> e ! 0 = ?cur \<and> e ! 1 = ''&''}" and
      st': "set st' = set (butlast st) \<union> (set cl' - set cl)" by blast
    have st_split: "set st = insert ?cur (set (butlast st))"
    proof -
      have "st = butlast st @ [?cur]" using False by simp
      then have "set st = set (butlast st @ [?cur])" by simp
      then show ?thesis by simp
    qed
    have cur_cl: "?cur \<in> set cl" using False less.prems(2) by auto
    have succ: "{e ! 2 | e. e \<in> set delta \<and> e ! 0 = ?cur \<and> e ! 1 = ''&''}
                = {y. (?cur, y) \<in> eps_step delta}"
      by (auto simp: eps_step_iff [OF wf])
    have i1: "state \<in> set cl'" using less.prems(1) cl' by simp
    have i2: "set st' \<subseteq> set cl'" using st' cl' st_split less.prems(2) by auto
    have i3: "set cl' \<subseteq> eps_reachable delta state"
    proof
      fix y assume "y \<in> set cl'"
      then consider "y \<in> set cl" | "(?cur, y) \<in> eps_step delta" using cl' succ by auto
      then show "y \<in> eps_reachable delta state"
      proof cases
        case 1
        then show ?thesis using less.prems(3) by auto
      next
        case 2
        have "(state, ?cur) \<in> (eps_step delta)\<^sup>*"
          using cur_cl less.prems(3) by (auto simp: eps_reachable_def)
        with 2 show ?thesis by (auto simp: eps_reachable_def)
      qed
    qed
    have "y \<in> set cl'" if "x \<in> set cl'" "x \<notin> set st'" "(x, y) \<in> eps_step delta" for x y
    proof -
      have xcl: "x \<in> set cl" and xb: "x \<notin> set (butlast st)" using that(1,2) st' by auto
      show ?thesis
      proof (cases "x = ?cur")
        case True
        then show ?thesis using that(3) cl' succ by auto
      next
        case False
        then have "x \<notin> set st" using xb st_split by auto
        then have "y \<in> set cl" using less.prems(4) xcl that(3) by blast
        then show ?thesis using cl' by simp
      qed
    qed
    then have i4: "\<forall>x y. x \<in> set cl' \<and> x \<notin> set st' \<and> (x, y) \<in> eps_step delta \<longrightarrow> y \<in> set cl'"
      by blast
    from less.hyps [OF closure_loop_step(2) [OF False scan] i1 i2 i3 i4]
    obtain r where "closure_loop delta cl' st' = Some (Inr r)" "set r = eps_reachable delta state"
      by blast
    then show ?thesis using closure_loop_step(1) [OF False scan] by simp
  qed
qed

text \<open>
  C6: for every state and every list of transitions (tuples of at least three tokens),
  \<open>handle_closure\<close> returns exactly the set of the states reachable from the state by
  zero or more transitions labelled \<open>&\<close>, the state itself included; a state with no
  outgoing epsilon transition has the closure that holds only itself.
\<close>

theorem handle_closure_exact:
  assumes "\<forall>edge\<in>set delta. 3 \<le> length edge"
  shows "\<exists>closure. handle_closure state delta = Some (Inr closure) \<and>
           set closure = eps_reachable delta state \<and>
           ((\<forall>edge\<in>set delta. \<not> (edge ! 0 = state \<and> edge ! 1 = ''&'')) \<longrightarrow>
              set closure = {state})"
proof -
  have "\<exists>r. closure_loop delta [state] [state] = Some (Inr r) \<and>
            set r = eps_reachable delta state"
    by (rule closure_loop_exact [OF assms]) (auto simp: eps_reachable_def)
  then obtain r where r: "handle_closure state delta = Some (Inr r)"
      "set r = eps_reachable delta state"
    by (auto simp: handle_closure_def)
  have "eps_reachable delta state = {state}"
    if "\<forall>edge\<in>set delta. \<not> (edge ! 0 = state \<and> edge ! 1 = ''&'')"
  proof -
    have "eps_reachable delta state \<subseteq> {state}"
      by (rule eps_closed_reachable) (use that in \<open>auto simp: eps_step_iff [OF assms]\<close>)
    moreover have "state \<in> eps_reachable delta state" by (simp add: eps_reachable_def)
    ultimately show ?thesis by auto
  qed
  with r show ?thesis by auto
qed

text \<open>An instance with an epsilon cycle between \<open>q0\<close> and \<open>q1\<close>, and one at a state
  without epsilon transitions.\<close>

theorem handle_closure_exact_witness:
  "list_all (\<lambda>edge. 3 \<le> length edge)
      [[''q0'', ''&'', ''q1''], [''q1'', ''&'', ''q0''], [''q1'', ''a'', ''q2'']] \<and>
   handle_closure ''q0'' [[''q0'', ''&'', ''q1''], [''q1'', ''&'', ''q0''], [''q1'', ''a'', ''q2'']]
     = Some (Inr [''q0'', ''q1'']) \<and>
   eps_reachable [[''q0'', ''&'', ''q1''], [''q1'', ''&'', ''q0''], [''q1'', ''a'', ''q2'']] ''q0''
     = {''q0'', ''q1''} \<and>
   list_all (\<lambda>edge. \<not> (edge ! 0 = ''q2'' \<and> edge ! 1 = ''&''))
      [[''q0'', ''&'', ''q1''], [''q1'', ''&'', ''q0''], [''q1'', ''a'', ''q2'']] \<and>
   handle_closure ''q2'' [[''q0'', ''&'', ''q1''], [''q1'', ''&'', ''q0''], [''q1'', ''a'', ''q2'']]
     = Some (Inr [''q2''])"
proof -
  let ?delta = "[[''q0'', ''&'', ''q1''], [''q1'', ''&'', ''q0''], [''q1'', ''a'', ''q2'']]"
  have h: "\<forall>edge\<in>set ?delta. 3 \<le> length edge"
    by simp
  have n: "\<forall>edge\<in>set ?delta. \<not> (edge ! 0 = ''q2'' \<and> edge ! 1 = ''&'')"
    by simp
  have e0: "handle_closure ''q0'' ?delta = Some (Inr [''q0'', ''q1''])"
    by code_simp
  have e2: "handle_closure ''q2'' ?delta = Some (Inr [''q2''])"
    by code_simp
  from handle_closure_exact [OF h, of "''q0''"] e0
  have "eps_reachable ?delta ''q0'' = {''q0'', ''q1''}" by auto
  with handle_closure_exact [OF h, of "''q2''"] h n e0 e2 show ?thesis by simp
qed

section \<open>\<open>load_automata\<close>: validation\<close>

lemma check_final_states_result:
  "check_final_states states final_states =
     (if list_all (\<lambda>state. state \<in> set states) final_states then Inr ()
      else Inl (ValueError ''invalid final state''))"
  by (induction final_states) auto

lemma check_edges_result:
  "\<forall>edge\<in>set delta. 3 \<le> length edge \<Longrightarrow>
   check_edges states alphabet delta =
     (if list_all (\<lambda>edge. edge ! 0 \<in> set states \<and>
                     (edge ! 1 \<in> set alphabet \<or> edge ! 1 = ''&'') \<and>
                     edge ! 2 \<in> set states) delta
      then Inr () else Inl (ValueError ''invalid edge''))"
  by (induction delta) auto

text \<open>
  C8: when every parsed transition line has at least three tokens, \<open>load_automata\<close>
  raises an error, a \<open>ValueError\<close> with one of its three reasons, if and only if the
  parsed components break an invariant of the data model (initial state, final states,
  endpoints and label of a transition); when they break none, it returns the five-tuple
  of the parsed components as they are.
\<close>

theorem load_automata_validates:
  assumes "read_file arquivo = (alphabet, states, final_states, initial_state, delta)"
    and "\<forall>edge\<in>set delta. 3 \<le> length edge"
  shows "((\<exists>reason\<in>{''invalid initial state'', ''invalid final state'', ''invalid edge''}.
             load_automata arquivo = Inl (ValueError reason))
          \<longleftrightarrow> \<not> satisfies_invariants states alphabet delta initial_state final_states) \<and>
         (isl (load_automata arquivo)
          \<longleftrightarrow> \<not> satisfies_invariants states alphabet delta initial_state final_states) \<and>
         (satisfies_invariants states alphabet delta initial_state final_states \<longrightarrow>
            load_automata arquivo = Inr (states, alphabet, delta, initial_state, final_states))"
  using assms
  by (simp add: load_automata_def satisfies_invariants_def check_final_states_result
      check_edges_result)

text \<open>A file that is accepted, and the same file with a transition to an undeclared
  state.\<close>

theorem load_automata_validates_witness:
  "read_file [''a b\<newline>'', ''q0 q1\<newline>'', ''q1\<newline>'', ''q0\<newline>'', ''q0 a q1\<newline>'', ''q1 & q0'']
     = ([''a'', ''b''], [''q0'', ''q1''], [''q1''], ''q0'',
        [[''q0'', ''a'', ''q1''], [''q1'', ''&'', ''q0'']]) \<and>
   list_all (\<lambda>edge. 3 \<le> length edge) [[''q0'', ''a'', ''q1''], [''q1'', ''&'', ''q0'']] \<and>
   load_automata [''a b\<newline>'', ''q0 q1\<newline>'', ''q1\<newline>'', ''q0\<newline>'', ''q0 a q1\<newline>'', ''q1 & q0'']
     = Inr ([''q0'', ''q1''], [''a'', ''b''],
            [[''q0'', ''a'', ''q1''], [''q1'', ''&'', ''q0'']], ''q0'', [''q1'']) \<and>
   read_file [''a b\<newline>'', ''q0 q1\<newline>'', ''q1\<newline>'', ''q0\<newline>'', ''q0 a q2\<newline>'']
     = ([''a'', ''b''], [''q0'', ''q1''], [''q1''], ''q0'', [[''q0'', ''a'', ''q2'']]) \<and>
   list_all (\<lambda>edge. 3 \<le> length edge) [[''q0'', ''a'', ''q2'']] \<and>
   isl (load_automata [''a b\<newline>'', ''q0 q1\<newline>'', ''q1\<newline>'', ''q0\<newline>'', ''q0 a q2\<newline>''])"
proof -
  have r1: "read_file [''a b\<newline>'', ''q0 q1\<newline>'', ''q1\<newline>'', ''q0\<newline>'', ''q0 a q1\<newline>'', ''q1 & q0'']
     = ([''a'', ''b''], [''q0'', ''q1''], [''q1''], ''q0'',
        [[''q0'', ''a'', ''q1''], [''q1'', ''&'', ''q0'']])"
    by code_simp
  have w1: "\<forall>edge\<in>set [[''q0'', ''a'', ''q1''], [''q1'', ''&'', ''q0'']]. 3 \<le> length edge"
    by simp
  have v1: "satisfies_invariants [''q0'', ''q1''] [''a'', ''b'']
              [[''q0'', ''a'', ''q1''], [''q1'', ''&'', ''q0'']] ''q0'' [''q1'']"
    by (simp add: satisfies_invariants_def)
  have r2: "read_file [''a b\<newline>'', ''q0 q1\<newline>'', ''q1\<newline>'', ''q0\<newline>'', ''q0 a q2\<newline>'']
     = ([''a'', ''b''], [''q0'', ''q1''], [''q1''], ''q0'', [[''q0'', ''a'', ''q2'']])"
    by code_simp
  have w2: "\<forall>edge\<in>set [[''q0'', ''a'', ''q2'']]. 3 \<le> length edge"
    by simp
  have v2: "\<not> satisfies_invariants [''q0'', ''q1''] [''a'', ''b'']
              [[''q0'', ''a'', ''q2'']] ''q0'' [''q1'']"
    by (simp add: satisfies_invariants_def)
  have a: "load_automata [''a b\<newline>'', ''q0 q1\<newline>'', ''q1\<newline>'', ''q0\<newline>'', ''q0 a q1\<newline>'', ''q1 & q0'']
     = Inr ([''q0'', ''q1''], [''a'', ''b''],
            [[''q0'', ''a'', ''q1''], [''q1'', ''&'', ''q0'']], ''q0'', [''q1''])"
    using load_automata_validates [OF r1 w1] v1 by blast
  have b: "isl (load_automata [''a b\<newline>'', ''q0 q1\<newline>'', ''q1\<newline>'', ''q0\<newline>'', ''q0 a q2\<newline>''])"
    using load_automata_validates [OF r2 w2] v2 by blast
  from r1 a r2 b show ?thesis by simp
qed

text \<open>
  C9 as amended: \<open>load_automata\<close> does not check the alphabet against the epsilon
  marker. Whenever it returns an automaton, the alphabet of that automaton is the list of
  the tokens of the first line as they are, so a declared \<open>&\<close> is stored in it.
\<close>

theorem load_automata_keeps_alphabet:
  assumes "load_automata arquivo = Inr (states, alphabet, delta, initial_state, final_states)"
  shows "alphabet = split_str (strip_str (fst (readline arquivo)))"
  using assms
  by (auto simp: load_automata_def read_file_def Let_def
           split: prod.splits if_splits sum.splits)

theorem load_automata_keeps_alphabet_witness:
  "load_automata [''& b\<newline>'', ''q0\<newline>'', ''q0\<newline>'', ''q0\<newline>'', ''q0 & q0\<newline>'']
     = Inr ([''q0''], [''&'', ''b''], [[''q0'', ''&'', ''q0'']], ''q0'', [''q0'']) \<and>
   [''&'', ''b''] = split_str (strip_str (fst (readline
      [''& b\<newline>'', ''q0\<newline>'', ''q0\<newline>'', ''q0\<newline>'', ''q0 & q0\<newline>''])))"
proof -
  have l: "load_automata [''& b\<newline>'', ''q0\<newline>'', ''q0\<newline>'', ''q0\<newline>'', ''q0 & q0\<newline>'']
     = Inr ([''q0''], [''&'', ''b''], [[''q0'', ''&'', ''q0'']], ''q0'', [''q0''])"
    by code_simp
  from load_automata_keeps_alphabet [OF l] l show ?thesis by simp
qed

text \<open>C9 as stated fails: the alphabet line of this file declares \<open>&\<close>, and
  \<open>load_automata\<close> returns an automaton with \<open>&\<close> in its alphabet.\<close>

theorem load_automata_stores_epsilon_marker:
  "load_automata [''a &\<newline>'', ''q0\<newline>'', ''q0\<newline>'', ''q0\<newline>'']
     = Inr ([''q0''], [''a'', ''&''], [], ''q0'', [''q0''])"
  by code_simp

section \<open>\<open>process\<close>\<close>

lemma follow_no_match:
  "\<forall>edge\<in>set delta. 3 \<le> length edge \<Longrightarrow>
   \<forall>edge\<in>set delta. \<not> (edge ! 0 = q \<and> edge ! 1 = symbol) \<Longrightarrow> follow delta q symbol = Inr q"
  by (induction delta) auto

lemma consume_append:
  "consume alphabet delta q0 pre = Inr (True, q) \<Longrightarrow>
   consume alphabet delta q0 (pre @ w) = consume alphabet delta q w"
  by (induction pre arbitrary: q0) (auto split: if_splits sum.splits)

text \<open>
  C5: in \<open>process\<close>, when the word has brought the automaton to a state \<open>q\<close>, the next
  symbol \<open>c\<close> is in the alphabet and no transition matches \<open>(q, c)\<close>, the state stays
  \<open>q\<close> and the rest of the word is read from \<open>q\<close>; the word gets \<open>ACEITA\<close> or
  \<open>REJEITA\<close> from the state \<open>r\<close> in which the rest ends.
\<close>

theorem process_missing_transition:
  assumes "consume alphabet delta initial_state pre = Inr (True, q)"
    and "[c] \<in> set alphabet"
    and "\<forall>edge\<in>set delta. 3 \<le> length edge"
    and "\<forall>edge\<in>set delta. \<not> (edge ! 0 = q \<and> edge ! 1 = [c])"
    and "consume alphabet delta q rest = Inr (True, r)"
  shows "follow delta q [c] = Inr q \<and>
         consume alphabet delta q (c # rest) = consume alphabet delta q rest \<and>
         process (states, alphabet, delta, initial_state, final_states) [pre @ c # rest] =
           Inr [(pre @ c # rest, if r \<in> set final_states then ''ACEITA'' else ''REJEITA'')]"
proof -
  have f: "follow delta q [c] = Inr q"
    using assms(3,4) by (rule follow_no_match)
  have step: "consume alphabet delta q (c # rest) = consume alphabet delta q rest"
    using f assms(2) by simp
  have "consume alphabet delta initial_state (pre @ c # rest) = Inr (True, r)"
    using consume_append [OF assms(1), of "c # rest"] step assms(5) by simp
  then show ?thesis using f step by (simp add: process_def classify_def)
qed

text \<open>The word \<open>aa\<close> on the automaton with the single transition \<open>q0 a q1\<close>: the
  second \<open>a\<close> finds no transition from \<open>q1\<close>, and the word is accepted in \<open>q1\<close>.\<close>

theorem process_missing_transition_witness:
  "consume [''a''] [[''q0'', ''a'', ''q1'']] ''q0'' ''a'' = Inr (True, ''q1'') \<and>
   ''a'' \<in> set [''a''] \<and>
   list_all (\<lambda>edge. 3 \<le> length edge) [[''q0'', ''a'', ''q1'']] \<and>
   list_all (\<lambda>edge. \<not> (edge ! 0 = ''q1'' \<and> edge ! 1 = ''a'')) [[''q0'', ''a'', ''q1'']] \<and>
   consume [''a''] [[''q0'', ''a'', ''q1'']] ''q1'' [] = Inr (True, ''q1'') \<and>
   process ([''q0'', ''q1''], [''a''], [[''q0'', ''a'', ''q1'']], ''q0'', [''q1'']) [''aa'']
     = Inr [(''aa'', ''ACEITA'')]"
proof -
  have h1: "consume [''a''] [[''q0'', ''a'', ''q1'']] ''q0'' ''a'' = Inr (True, ''q1'')"
    by simp
  have h2: "[CHR ''a''] \<in> set [''a'']" by simp
  have h3: "\<forall>edge\<in>set [[''q0'', ''a'', ''q1'']]. 3 \<le> length edge" by simp
  have h4: "\<forall>edge\<in>set [[''q0'', ''a'', ''q1'']]. \<not> (edge ! 0 = ''q1'' \<and> edge ! 1 = [CHR ''a''])"
    by simp
  have h5: "consume [''a''] [[''q0'', ''a'', ''q1'']] ''q1'' [] = Inr (True, ''q1'')"
    by simp
  from process_missing_transition [OF h1 h2 h3 h4 h5, of "[''q0'', ''q1'']" "[''q1'']"]
    h1 h2 h3 h4 h5
  show ?thesis by simp
qed

text \<open>
  C10: \<open>process\<close> never consults the declared states: two automata that differ only in
  their first component give the same result on every list of words.
\<close>

theorem process_ignores_states:
  "process (states1, alphabet, delta, initial_state, final_states) words =
   process (states2, alphabet, delta, initial_state, final_states) words"
  by (simp add: process_def)

section \<open>\<open>convert_to_dfa\<close>: labels of the composite states\<close>

text \<open>
  C4 says that the label of a composite state is determined by its members (the join of
  the sorted members) and that two different composite states never receive the same
  label. On the automaton with the states \<open>a\<close>, \<open>aa\<close>, \<open>aaa\<close>, \<open>b\<close> and the
  transitions \<open>a & aa\<close>, \<open>a x aaa\<close>, \<open>aaa x b\<close>, the loop over the queue finds the
  composite states \<open>{a, aa}\<close>, \<open>{aaa}\<close> and \<open>{b}\<close>. The first two are different sets
  and both are labelled \<open>aaa\<close>, in either order of iteration of \<open>{a, aa}\<close>, so the
  automaton returned has the two transitions \<open>(aaa, x, aaa)\<close> and \<open>(aaa, x, b)\<close> from
  one label. The join itself follows the order of iteration and sorts nothing: the same
  two members joined in the two orders give two labels.
\<close>

theorem convert_to_dfa_label_collision:
  "handle_closure ''a''
      [[''a'', ''&'', ''aa''], [''a'', ''x'', ''aaa''], [''aaa'', ''x'', ''b'']]
     = Some (Inr [''a'', ''aa'']) \<and>
   subset_loop [''x'']
      [[''a'', ''&'', ''aa''], [''a'', ''x'', ''aaa''], [''aaa'', ''x'', ''b'']]
      [] [] [] [[''a'', ''aa'']]
     = Some (Inr ([[''a'', ''aa''], [''aaa''], [''b'']],
                  [([''a'', ''aa''], ''x'', [''aaa'']), ([''aaa''], ''x'', [''b''])])) \<and>
   set [''a'', ''aa''] \<noteq> set [''aaa''] \<and>
   join [''a'', ''aa''] = ''aaa'' \<and> join [''aa'', ''a''] = ''aaa'' \<and> join [''aaa''] = ''aaa'' \<and>
   convert_to_dfa ([''a'', ''aa'', ''aaa'', ''b''], [''x''],
      [[''a'', ''&'', ''aa''], [''a'', ''x'', ''aaa''], [''aaa'', ''x'', ''b'']], ''a'', [''b''])
     = Some (Inr (StateStr ''b'', [''x''],
                  [[''aaa'', ''x'', ''aaa''], [''aaa'', ''x'', ''b'']], ''aaa'', [''b''])) \<and>
   set [''q1'', ''q0''] = set [''q0'', ''q1''] \<and> join [''q1'', ''q0''] \<noteq> join [''q0'', ''q1'']"
proof -
  have "handle_closure ''a''
      [[''a'', ''&'', ''aa''], [''a'', ''x'', ''aaa''], [''aaa'', ''x'', ''b'']]
     = Some (Inr [''a'', ''aa''])"
    by code_simp
  moreover have "subset_loop [''x'']
      [[''a'', ''&'', ''aa''], [''a'', ''x'', ''aaa''], [''aaa'', ''x'', ''b'']]
      [] [] [] [[''a'', ''aa'']]
     = Some (Inr ([[''a'', ''aa''], [''aaa''], [''b'']],
                  [([''a'', ''aa''], ''x'', [''aaa'']), ([''aaa''], ''x'', [''b''])]))"
    by code_simp
  moreover have "set [''a'', ''aa''] \<noteq> set [''aaa'']"
    by simp
  moreover have "join [''a'', ''aa''] = ''aaa'' \<and> join [''aa'', ''a''] = ''aaa'' \<and>
                 join [''aaa''] = ''aaa''"
    by (simp add: join_def)
  moreover have "convert_to_dfa ([''a'', ''aa'', ''aaa'', ''b''], [''x''],
      [[''a'', ''&'', ''aa''], [''a'', ''x'', ''aaa''], [''aaa'', ''x'', ''b'']], ''a'', [''b''])
     = Some (Inr (StateStr ''b'', [''x''],
                  [[''aaa'', ''x'', ''aaa''], [''aaa'', ''x'', ''b'']], ''aaa'', [''b'']))"
    by code_simp
  moreover have "set [''q1'', ''q0''] = set [''q0'', ''q1''] \<and>
                 join [''q1'', ''q0''] \<noteq> join [''q0'', ''q1'']"
    by (simp add: join_def insert_commute)
  ultimately show ?thesis by blast
qed

section \<open>\<open>convert_to_dfa\<close>: the automaton it returns\<close>

inductive_cases nfa_path_ConsE: "nfa_path delta q (c # w) q'"

inductive_cases nfa_path_NilE: "nfa_path delta q [] q'"

lemma single_edge_rejects_aa:
  "\<not> nfa_path [[''q0'', ''a'', ''q1'']] ''q0'' ''aa'' ''q1''"
proof
  assume "nfa_path [[''q0'', ''a'', ''q1'']] ''q0'' ''aa'' ''q1''"
  then have "nfa_path [[''q0'', ''a'', ''q1'']] ''q1'' ''a'' ''q1''"
    by (rule nfa_path_ConsE) auto
  then show False
    by (rule nfa_path_ConsE) auto
qed

text \<open>
  C1 says that determinization preserves the language. It does not on the automaton with
  the states \<open>q0\<close>, \<open>q1\<close>, the alphabet \<open>a\<close>, the single transition \<open>q0 a q1\<close>, the
  initial state \<open>q0\<close> and the final state \<open>q1\<close>: no path reads the word \<open>aa\<close>, and
  \<open>process\<close> on the automaton that \<open>convert_to_dfa\<close> returns classifies \<open>aa\<close> as
  \<open>ACEITA\<close>. Every composite state here has one member, so the order in which a set is
  iterated plays no part.
\<close>

theorem convert_to_dfa_accepts_more:
  "convert_to_dfa ([''q0'', ''q1''], [''a''], [[''q0'', ''a'', ''q1'']], ''q0'', [''q1''])
     = Some (Inr (StateStr ''q1'', [''a''], [[''q0'', ''a'', ''q1'']], ''q0'', [''q1''])) \<and>
   process (StateStr ''q1'', [''a''], [[''q0'', ''a'', ''q1'']], ''q0'', [''q1'']) [''aa'']
     = Inr [(''aa'', ''ACEITA'')] \<and>
   \<not> nfa_accepts ([''q0'', ''q1''], [''a''], [[''q0'', ''a'', ''q1'']], ''q0'', [''q1'']) ''aa''"
proof -
  have "convert_to_dfa ([''q0'', ''q1''], [''a''], [[''q0'', ''a'', ''q1'']], ''q0'', [''q1''])
     = Some (Inr (StateStr ''q1'', [''a''], [[''q0'', ''a'', ''q1'']], ''q0'', [''q1'']))"
    by code_simp
  moreover have "process (StateStr ''q1'', [''a''], [[''q0'', ''a'', ''q1'']], ''q0'', [''q1''])
     [''aa''] = Inr [(''aa'', ''ACEITA'')]"
    by (simp add: process_def classify_def)
  moreover have "\<not> nfa_accepts ([''q0'', ''q1''], [''a''], [[''q0'', ''a'', ''q1'']], ''q0'',
     [''q1'']) ''aa''"
    using single_edge_rejects_aa by (simp add: nfa_accepts_def)
  ultimately show ?thesis by blast
qed

text \<open>The language also changes where every step of the word finds a transition: the
  composite states \<open>{a, aa}\<close> and \<open>{aaa}\<close> become one state \<open>aaa\<close>, which is final
  because of \<open>aa\<close>, and the word \<open>x\<close> that leads from \<open>a\<close> to \<open>aaa\<close> only is
  accepted. The label of \<open>{a, aa}\<close> is \<open>aaa\<close> in either order of iteration.\<close>

lemma no_path_from_aa:
  "\<not> nfa_path [[''a'', ''&'', ''aa''], [''a'', ''x'', ''aaa'']] ''aa'' ''x'' ''aa''"
proof
  assume "nfa_path [[''a'', ''&'', ''aa''], [''a'', ''x'', ''aaa'']] ''aa'' ''x'' ''aa''"
  then show False
    by (rule nfa_path_ConsE) auto
qed

lemma no_empty_path_from_aaa:
  "\<not> nfa_path [[''a'', ''&'', ''aa''], [''a'', ''x'', ''aaa'']] ''aaa'' [] ''aa''"
proof
  assume "nfa_path [[''a'', ''&'', ''aa''], [''a'', ''x'', ''aaa'']] ''aaa'' [] ''aa''"
  then show False
    by (rule nfa_path_NilE) auto
qed

lemma merged_label_rejects_x:
  "\<not> nfa_path [[''a'', ''&'', ''aa''], [''a'', ''x'', ''aaa'']] ''a'' ''x'' ''aa''"
proof
  assume "nfa_path [[''a'', ''&'', ''aa''], [''a'', ''x'', ''aaa'']] ''a'' ''x'' ''aa''"
  then show False
    by (rule nfa_path_ConsE) (use no_path_from_aa no_empty_path_from_aaa in auto)
qed

lemma convert_to_dfa_merged_label_accepts_more:
  "convert_to_dfa ([''a'', ''aa'', ''aaa''], [''x''],
      [[''a'', ''&'', ''aa''], [''a'', ''x'', ''aaa'']], ''a'', [''aa''])
     = Some (Inr (StateStr ''aaa'', [''x''], [[''aaa'', ''x'', ''aaa'']], ''aaa'', [''aaa''])) \<and>
   process (StateStr ''aaa'', [''x''], [[''aaa'', ''x'', ''aaa'']], ''aaa'', [''aaa'']) [''x'']
     = Inr [(''x'', ''ACEITA'')] \<and>
   \<not> nfa_accepts ([''a'', ''aa'', ''aaa''], [''x''],
      [[''a'', ''&'', ''aa''], [''a'', ''x'', ''aaa'']], ''a'', [''aa'']) ''x''"
proof -
  have "convert_to_dfa ([''a'', ''aa'', ''aaa''], [''x''],
      [[''a'', ''&'', ''aa''], [''a'', ''x'', ''aaa'']], ''a'', [''aa''])
     = Some (Inr (StateStr ''aaa'', [''x''], [[''aaa'', ''x'', ''aaa'']], ''aaa'', [''aaa'']))"
    by code_simp
  moreover have "process (StateStr ''aaa'', [''x''], [[''aaa'', ''x'', ''aaa'']], ''aaa'',
     [''aaa'']) [''x''] = Inr [(''x'', ''ACEITA'')]"
    by (simp add: process_def classify_def)
  moreover have "\<not> nfa_accepts ([''a'', ''aa'', ''aaa''], [''x''],
      [[''a'', ''&'', ''aa''], [''a'', ''x'', ''aaa'']], ''a'', [''aa'']) ''x''"
    using merged_label_rejects_x by (simp add: nfa_accepts_def)
  ultimately show ?thesis by blast
qed

text \<open>
  C2 says that no two transitions of the automaton returned by \<open>convert_to_dfa\<close> share
  their source and symbol, each composite state being processed once. On the automaton
  with the single state \<open>q0\<close> and the transition \<open>q0 a q0\<close>, the closure of the initial
  state is taken from the queue twice, since it is never put in \<open>watched\<close> before it is
  found again, and the result lists the transition \<open>(q0, a, q0)\<close> twice.
\<close>

theorem convert_to_dfa_repeats_initial_state:
  "convert_to_dfa ([''q0''], [''a''], [[''q0'', ''a'', ''q0'']], ''q0'', [''q0''])
     = Some (Inr (StateStr ''q0'', [''a''],
                  [[''q0'', ''a'', ''q0''], [''q0'', ''a'', ''q0'']], ''q0'', [''q0'', ''q0''])) \<and>
   \<not> deterministic [[''q0'', ''a'', ''q0''], [''q0'', ''a'', ''q0'']]"
proof -
  have "convert_to_dfa ([''q0''], [''a''], [[''q0'', ''a'', ''q0'']], ''q0'', [''q0''])
     = Some (Inr (StateStr ''q0'', [''a''],
                  [[''q0'', ''a'', ''q0''], [''q0'', ''a'', ''q0'']], ''q0'', [''q0'', ''q0'']))"
    by code_simp
  moreover have "\<not> deterministic [[''q0'', ''a'', ''q0''], [''q0'', ''a'', ''q0'']]"
    by (simp add: deterministic_def)
  ultimately show ?thesis by blast
qed

text \<open>Two transitions with one source, one symbol and two destinations: the composite
  states \<open>{a, aa}\<close> and \<open>{aaa}\<close> have the label \<open>aaa\<close> both.\<close>

lemma convert_to_dfa_conflicting_transitions:
  "convert_to_dfa ([''a'', ''aa'', ''aaa'', ''b''], [''x''],
      [[''a'', ''&'', ''aa''], [''a'', ''x'', ''aaa''], [''aaa'', ''x'', ''b'']], ''a'', [''b''])
     = Some (Inr (StateStr ''b'', [''x''],
                  [[''aaa'', ''x'', ''aaa''], [''aaa'', ''x'', ''b'']], ''aaa'', [''b''])) \<and>
   \<not> deterministic [[''aaa'', ''x'', ''aaa''], [''aaa'', ''x'', ''b'']]"
proof -
  have "convert_to_dfa ([''a'', ''aa'', ''aaa'', ''b''], [''x''],
      [[''a'', ''&'', ''aa''], [''a'', ''x'', ''aaa''], [''aaa'', ''x'', ''b'']], ''a'', [''b''])
     = Some (Inr (StateStr ''b'', [''x''],
                  [[''aaa'', ''x'', ''aaa''], [''aaa'', ''x'', ''b'']], ''aaa'', [''b'']))"
    by code_simp
  moreover have "\<not> deterministic [[''aaa'', ''x'', ''aaa''], [''aaa'', ''x'', ''b'']]"
    by (simp add: deterministic_def)
  ultimately show ?thesis by blast
qed

text \<open>
  C3 says that the states component of the automaton returned by \<open>convert_to_dfa\<close>
  holds the label of every composite state, and that the labels used by the transitions,
  the initial state and the final states belong to it. On the automaton with the
  transitions \<open>q0 a q1\<close> and \<open>q1 b q2\<close> the composite states are \<open>{q0}\<close>, \<open>{q1}\<close>
  and \<open>{q2}\<close>, and the states component is the one string \<open>q2\<close>, the label of the
  last of them: the labels \<open>q0\<close> and \<open>q1\<close> of the transitions and of the initial state
  are not in it.
\<close>

theorem convert_to_dfa_states_component:
  "convert_to_dfa ([''q0'', ''q1'', ''q2''], [''a'', ''b''],
      [[''q0'', ''a'', ''q1''], [''q1'', ''b'', ''q2'']], ''q0'', [''q2''])
     = Some (Inr (StateStr ''q2'', [''a'', ''b''],
                  [[''q0'', ''a'', ''q1''], [''q1'', ''b'', ''q2'']], ''q0'', [''q2''])) \<and>
   \<not> py_in ''q0'' (StateStr ''q2'') \<and> \<not> py_in ''q1'' (StateStr ''q2'')"
proof -
  have "convert_to_dfa ([''q0'', ''q1'', ''q2''], [''a'', ''b''],
      [[''q0'', ''a'', ''q1''], [''q1'', ''b'', ''q2'']], ''q0'', [''q2''])
     = Some (Inr (StateStr ''q2'', [''a'', ''b''],
                  [[''q0'', ''a'', ''q1''], [''q1'', ''b'', ''q2'']], ''q0'', [''q2'']))"
    by code_simp
  moreover have "\<not> py_in ''q0'' (StateStr ''q2'')" by simp
  moreover have "\<not> py_in ''q1'' (StateStr ''q2'')" by simp
  ultimately show ?thesis by blast
qed

end
